theory Spec2Isabelle
  imports Main
begin

section \<open>The filter-to-SQL compiler of \<open>SolteqTandDatabase\<close>\<close>

text \<open>
  This theory embeds \<^verbatim>\<open>SolteqTandDatabase._construct_sql_statement\<close> of
  \<^verbatim>\<open>solteqtand/db_handler.py\<close>. The method is a pure transformation of its arguments
  into a pair of a query string and a parameter list; it reads no attribute of \<^verbatim>\<open>self\<close>.

  Python is dynamically typed, so the arguments \<^verbatim>\<open>filters\<close>, \<^verbatim>\<open>or_filters\<close> and
  \<^verbatim>\<open>order_direction\<close>, on which the method calls \<^verbatim>\<open>.items()\<close>, iterates, or calls
  \<^verbatim>\<open>.upper()\<close>, are values of a universe \<open>pyval\<close>, and the exceptions that these
  operations raise on a value of the wrong shape are results of the model. Column names
  (dictionary keys), the base query and the order-by column are strings; a string is a list
  of bytes (its UTF-8 encoding), on which concatenation and the test \<^verbatim>\<open>"%" in value\<close> are
  what Python computes on the decoded text. The built-in \<^verbatim>\<open>str.upper()\<close>, whose result
  depends on Unicode's case mappings, is a parameter \<open>upper\<close> of the model: every theorem
  with the variable \<open>upper\<close> holds for whatever function \<^verbatim>\<open>str.upper()\<close> is.
\<close>

subsection \<open>Python values\<close>

datatype pyval =
    PNone
  | PBool bool
  | PInt int
  | PStr string
  | PTuple "pyval list"
  | PList "pyval list"
  | PDict "(string \<times> pyval) list"

text \<open>A dictionary is the list of its items in iteration (insertion) order.\<close>

datatype py_error = AttributeError | TypeError

text \<open>The truth value that \<^verbatim>\<open>if x:\<close> tests.\<close>

fun truthy :: "pyval \<Rightarrow> bool" where
  "truthy PNone = False"
| "truthy (PBool b) = b"
| "truthy (PInt n) = (n \<noteq> 0)"
| "truthy (PStr s) = (s \<noteq> [])"
| "truthy (PTuple xs) = (xs \<noteq> [])"
| "truthy (PList xs) = (xs \<noteq> [])"
| "truthy (PDict kvs) = (kvs \<noteq> [])"

text \<open>\<^verbatim>\<open>isinstance(value, tuple)\<close>, \<^verbatim>\<open>isinstance(value, list)\<close>, \<^verbatim>\<open>isinstance(value, str)\<close>.\<close>

fun is_tuple :: "pyval \<Rightarrow> bool" where
  "is_tuple (PTuple xs) = True"
| "is_tuple v = False"

fun is_list :: "pyval \<Rightarrow> bool" where
  "is_list (PList xs) = True"
| "is_list v = False"

fun is_str :: "pyval \<Rightarrow> bool" where
  "is_str (PStr s) = True"
| "is_str v = False"

text \<open>The elements of a tuple or list, and the characters of a string.\<close>

fun elems :: "pyval \<Rightarrow> pyval list" where
  "elems (PTuple xs) = xs"
| "elems (PList xs) = xs"
| "elems v = []"

fun chars :: "pyval \<Rightarrow> string" where
  "chars (PStr s) = s"
| "chars v = []"

subsection \<open>String operations\<close>

text \<open>\<^verbatim>\<open>sep.join(xs)\<close>\<close>

fun join_str :: "string \<Rightarrow> string list \<Rightarrow> string" where
  "join_str sep [] = []"
| "join_str sep [x] = x"
| "join_str sep (x # y # ys) = x @ sep @ join_str sep (y # ys)"

text \<open>\<^verbatim>\<open>", ".join("?" for _ in value)\<close>\<close>

definition placeholders :: "pyval list \<Rightarrow> string" where
  "placeholders value = join_str '', '' (map (\<lambda>_. ''?'') value)"

subsection \<open>The AND filters\<close>

text \<open>
  The body of the loop over \<^verbatim>\<open>filters.items()\<close>: every branch appends one clause to
  \<^verbatim>\<open>where_clauses\<close> and extends \<^verbatim>\<open>params\<close>; \<open>and_entry\<close> returns the clause and the
  values added.
\<close>

definition and_entry :: "string \<Rightarrow> pyval \<Rightarrow> string \<times> pyval list" where
  "and_entry key value =
     (if is_tuple value \<and> length (elems value) = 2 then
        (key @ '' BETWEEN ? AND ?'', elems value)
      else if is_list value then
        (key @ '' IN ('' @ placeholders (elems value) @ '')'', elems value)
      else if is_str value \<and> CHR ''%'' \<in> set (chars value) then
        (key @ '' LIKE ?'', [value])
      else
        (key @ '' = ?'', [value]))"

text \<open>The loop, with \<^verbatim>\<open>where_clauses\<close> and \<^verbatim>\<open>params\<close> as accumulators.\<close>

fun and_loop :: "(string \<times> pyval) list \<Rightarrow> string list \<Rightarrow> pyval list \<Rightarrow> string list \<times> pyval list" where
  "and_loop [] where_clauses params = (where_clauses, params)"
| "and_loop ((key, value) # items) where_clauses params =
     (let (clause, vals) = and_entry key value
      in and_loop items (where_clauses @ [clause]) (params @ vals))"

text \<open>
  \<^verbatim>\<open>if filters: for key, value in filters.items(): ...\<close> A true value that is not a
  dictionary has no \<^verbatim>\<open>items\<close>.
\<close>

fun and_filters :: "pyval \<Rightarrow> py_error + (string list \<times> pyval list)" where
  "and_filters (PDict kvs) = Inr (and_loop kvs [] [])"
| "and_filters v = (if truthy v then Inl AttributeError else Inr ([], []))"

subsection \<open>The OR filters\<close>

text \<open>The body of the loop over \<^verbatim>\<open>or_filter.items()\<close>; there is no BETWEEN branch here.\<close>

definition or_entry :: "string \<Rightarrow> pyval \<Rightarrow> string \<times> pyval list" where
  "or_entry key value =
     (if is_list value then
        (key @ '' IN ('' @ placeholders (elems value) @ '')'', elems value)
      else if is_str value \<and> CHR ''%'' \<in> set (chars value) then
        (key @ '' LIKE ?'', [value])
      else
        (key @ '' = ?'', [value]))"

fun sub_loop :: "(string \<times> pyval) list \<Rightarrow> string list \<Rightarrow> pyval list \<Rightarrow> string list \<times> pyval list" where
  "sub_loop [] sub_clauses sub_params = (sub_clauses, sub_params)"
| "sub_loop ((key, value) # items) sub_clauses sub_params =
     (let (clause, vals) = or_entry key value
      in sub_loop items (sub_clauses @ [clause]) (sub_params @ vals))"

text \<open>
  The loop over the elements of \<^verbatim>\<open>or_filters\<close>, with \<^verbatim>\<open>or_clauses\<close> and \<^verbatim>\<open>params\<close> as
  accumulators. An element that is not a dictionary has no \<^verbatim>\<open>items\<close>.
\<close>

fun or_loop :: "pyval list \<Rightarrow> string list \<Rightarrow> pyval list \<Rightarrow> py_error + (string list \<times> pyval list)" where
  "or_loop [] or_clauses params = Inr (or_clauses, params)"
| "or_loop (PDict kvs # rest) or_clauses params =
     (let (sub_clauses, sub_params) = sub_loop kvs [] []
      in if sub_clauses \<noteq> [] then
           or_loop rest (or_clauses @ [''('' @ join_str '' OR '' sub_clauses @ '')'']) (params @ sub_params)
         else or_loop rest or_clauses params)"
| "or_loop (v # rest) or_clauses params = Inl AttributeError"

text \<open>
  \<^verbatim>\<open>if or_filters: for or_filter in or_filters: ...\<close> Iterating a list or a tuple gives its
  elements, iterating a dictionary its keys and iterating a string its characters (strings,
  which have no \<^verbatim>\<open>items\<close>; both are non-empty here); a true integer or boolean is not
  iterable.
\<close>

fun or_filters_clauses :: "pyval \<Rightarrow> pyval list \<Rightarrow> py_error + (string list \<times> pyval list)" where
  "or_filters_clauses (PList xs) params = or_loop xs [] params"
| "or_filters_clauses (PTuple xs) params = or_loop xs [] params"
| "or_filters_clauses (PDict kvs) params = (if kvs \<noteq> [] then Inl AttributeError else Inr ([], params))"
| "or_filters_clauses (PStr s) params = (if s \<noteq> [] then Inl AttributeError else Inr ([], params))"
| "or_filters_clauses v params = (if truthy v then Inl TypeError else Inr ([], params))"

subsection \<open>The compiler\<close>

text \<open>
  \<^verbatim>\<open>_construct_sql_statement(base_query, filters=None, or_filters=None, order_by=None,
  order_direction="ASC")\<close>. The order-by column is \<open>None\<close> or a string, and \<^verbatim>\<open>if order_by:\<close>
  holds for a non-empty string. The first argument of the model, \<open>upper\<close>, is the function
  that \<^verbatim>\<open>order_direction.upper()\<close> computes on strings.
\<close>

definition order_clause ::
  "(string \<Rightarrow> string) \<Rightarrow> string option \<Rightarrow> pyval \<Rightarrow> string \<Rightarrow> py_error + string" where
  "order_clause upper order_by order_direction base_query =
     (case order_by of
        None \<Rightarrow> Inr base_query
      | Some col \<Rightarrow>
          if col = [] then Inr base_query
          else (case order_direction of
                  PStr d \<Rightarrow>
                    Inr (base_query @ '' ORDER BY '' @ col @ '' '' @
                         (if upper d \<notin> set [''ASC'', ''DESC''] then ''ASC'' else upper d))
                | _ \<Rightarrow> Inl AttributeError))"

definition construct_sql_statement ::
  "(string \<Rightarrow> string) \<Rightarrow> string \<Rightarrow> pyval \<Rightarrow> pyval \<Rightarrow> string option \<Rightarrow> pyval
     \<Rightarrow> py_error + (string \<times> pyval list)" where
  "construct_sql_statement upper base_query filters or_filters order_by order_direction =
     (case and_filters filters of
        Inl e \<Rightarrow> Inl e
      | Inr (where_clauses, params) \<Rightarrow>
          (case or_filters_clauses or_filters params of
             Inl e \<Rightarrow> Inl e
           | Inr (or_clauses, params') \<Rightarrow>
               (let q1 = (if where_clauses \<noteq> [] then
                            base_query @ '' AND '' @ join_str '' AND '' where_clauses
                          else base_query);
                    q2 = (if or_clauses \<noteq> [] then
                            q1 @ '' AND ('' @ join_str '' OR '' or_clauses @ '')''
                          else q1)
                in (case order_clause upper order_by order_direction q2 of
                      Inl e \<Rightarrow> Inl e
                    | Inr q3 \<Rightarrow> Inr (q3, params')))))"


subsection \<open>What the loops compute\<close>

text \<open>
  The clauses and the parameters that \<open>and_loop\<close> and \<open>or_loop\<close> accumulate, as functions of
  the items, and the text that the compiler appends for them. They are related to the loops
  by the lemmas \<open>and_loop_acc\<close>, \<open>sub_loop_acc\<close>, \<open>or_loop_dicts\<close> and \<open>construct_dicts\<close>.
\<close>

definition n_placeholders :: "string \<Rightarrow> nat" where
  "n_placeholders q = count_list q (CHR ''?'')"

definition and_clauses :: "(string \<times> pyval) list \<Rightarrow> string list" where
  "and_clauses kvs = map (\<lambda>(key, value). fst (and_entry key value)) kvs"

definition and_params :: "(string \<times> pyval) list \<Rightarrow> pyval list" where
  "and_params kvs = concat (map (\<lambda>(key, value). snd (and_entry key value)) kvs)"

definition or_element_clause :: "(string \<times> pyval) list \<Rightarrow> string" where
  "or_element_clause kvs =
     ''('' @ join_str '' OR '' (map (\<lambda>(key, value). fst (or_entry key value)) kvs) @ '')''"

definition or_element_params :: "(string \<times> pyval) list \<Rightarrow> pyval list" where
  "or_element_params kvs = concat (map (\<lambda>(key, value). snd (or_entry key value)) kvs)"

definition and_text :: "(string \<times> pyval) list \<Rightarrow> string" where
  "and_text kvs = (if kvs = [] then [] else '' AND '' @ join_str '' AND '' (and_clauses kvs))"

definition or_text :: "(string \<times> pyval) list list \<Rightarrow> string" where
  "or_text gs =
     (if filter (\<lambda>g. g \<noteq> []) gs = [] then []
      else '' AND ('' @ join_str '' OR '' (map or_element_clause (filter (\<lambda>g. g \<noteq> []) gs)) @ '')'')"

definition order_text :: "(string \<Rightarrow> string) \<Rightarrow> string option \<Rightarrow> string \<Rightarrow> string" where
  "order_text upper order_by d =
     (case order_by of
        None \<Rightarrow> []
      | Some col \<Rightarrow>
          if col = [] then []
          else '' ORDER BY '' @ col @ '' '' @
               (if upper d \<notin> set [''ASC'', ''DESC''] then ''ASC'' else upper d))"

text \<open>
  The value of \<^verbatim>\<open>str.upper()\<close> on a string of ASCII characters: each of the letters
  \<^verbatim>\<open>a\<close> to \<^verbatim>\<open>z\<close> moves to its capital, every other ASCII character stays. On other strings
  \<open>ascii_upper\<close> is not \<^verbatim>\<open>str.upper()\<close> (U+017F, for one, has the capital \<^verbatim>\<open>S\<close>); it stands
  for the parameter \<open>upper\<close> only in closed examples whose direction is an ASCII string, and
  in the lemmas on ASCII directions.
\<close>

definition ascii_upper_char :: "char \<Rightarrow> char" where
  "ascii_upper_char c =
     (case map_of (zip ''abcdefghijklmnopqrstuvwxyz'' ''ABCDEFGHIJKLMNOPQRSTUVWXYZ'') c of
        None \<Rightarrow> c
      | Some u \<Rightarrow> u)"

definition ascii_upper :: "string \<Rightarrow> string" where
  "ascii_upper s = map ascii_upper_char s"

text \<open>
  \<open>same_letters d word\<close>: the string \<open>d\<close> is the lower-case \<open>word\<close> in some letter case,
  that is, it has the length of \<open>word\<close> and each of its characters is the character of
  \<open>word\<close> at that place or its capital.
\<close>

definition same_letters :: "string \<Rightarrow> string \<Rightarrow> bool" where
  "same_letters d word = list_all2 (\<lambda>c e. c = e \<or> c = ascii_upper_char e) d word"

text \<open>
  The argument types of the contract: \<^verbatim>\<open>filters\<close> is \<^verbatim>\<open>None\<close> or a dictionary,
  \<^verbatim>\<open>or_filters\<close> is \<^verbatim>\<open>None\<close> or a sequence of dictionaries, and \<^verbatim>\<open>order_direction\<close> is a
  string (\<open>is_str\<close>).
\<close>

fun is_dict :: "pyval \<Rightarrow> bool" where
  "is_dict (PDict kvs) = True"
| "is_dict v = False"

fun is_filter_map :: "pyval \<Rightarrow> bool" where
  "is_filter_map PNone = True"
| "is_filter_map (PDict kvs) = True"
| "is_filter_map v = False"

fun is_or_filter_group :: "pyval \<Rightarrow> bool" where
  "is_or_filter_group PNone = True"
| "is_or_filter_group (PList xs) = list_all is_dict xs"
| "is_or_filter_group (PTuple xs) = list_all is_dict xs"
| "is_or_filter_group v = False"

subsection \<open>The loops, without accumulators\<close>

lemma and_loop_acc:
  "and_loop kvs wc ps = (wc @ and_clauses kvs, ps @ and_params kvs)"
  by (induction kvs arbitrary: wc ps)
     (auto simp: and_clauses_def and_params_def split: prod.splits)

lemma sub_loop_acc:
  "sub_loop kvs sc sp =
     (sc @ map (\<lambda>(key, value). fst (or_entry key value)) kvs, sp @ or_element_params kvs)"
  by (induction kvs arbitrary: sc sp)
     (auto simp: or_element_params_def split: prod.splits)

lemma or_element_params_Nil: "or_element_params [] = []"
  by (simp add: or_element_params_def)

lemma or_loop_dicts:
  "or_loop (map PDict gs) oc ps =
     Inr (oc @ map or_element_clause (filter (\<lambda>g. g \<noteq> []) gs),
          ps @ concat (map or_element_params gs))"
proof (induction gs arbitrary: oc ps)
  case Nil
  show ?case by simp
next
  case (Cons g gs)
  show ?case
  proof (cases "g = []")
    case True
    then show ?thesis by (simp add: Cons.IH or_element_params_Nil)
  next
    case False
    then show ?thesis
      by (simp add: Cons.IH sub_loop_acc or_element_clause_def)
  qed
qed

lemma construct_dicts:
  "construct_sql_statement upper base (PDict kvs) (PList (map PDict gs)) ob dir =
     (case order_clause upper ob dir (base @ and_text kvs @ or_text gs) of
        Inl e \<Rightarrow> Inl e
      | Inr q \<Rightarrow> Inr (q, and_params kvs @ concat (map or_element_params gs)))"
  by (simp add: construct_sql_statement_def and_loop_acc or_loop_dicts and_text_def or_text_def
        and_clauses_def)

lemma and_filters_None: "and_filters PNone = and_filters (PDict [])"
  by simp

lemma or_filters_clauses_None: "or_filters_clauses PNone ps = or_filters_clauses (PList []) ps"
  by simp

lemma construct_None_filters:
  "construct_sql_statement upper base PNone orf ob dir = construct_sql_statement upper base (PDict []) orf ob dir"
  by (simp add: construct_sql_statement_def)

lemma construct_None_or_filters:
  "construct_sql_statement upper base f PNone ob dir = construct_sql_statement upper base f (PList []) ob dir"
  by (simp add: construct_sql_statement_def split: sum.splits prod.splits)

lemma construct_tuple_or_filters:
  "construct_sql_statement upper base f (PTuple xs) ob dir = construct_sql_statement upper base f (PList xs) ob dir"
  by (simp add: construct_sql_statement_def split: sum.splits prod.splits)

subsection \<open>Counting placeholders\<close>

lemma count_join_str:
  "count_list sep c = 0 \<Longrightarrow>
   count_list (join_str sep xs) c = sum_list (map (\<lambda>x. count_list x c) xs)"
  by (induction sep xs rule: join_str.induct) simp_all

lemma count_placeholders: "count_list (placeholders value) (CHR ''?'') = length value"
proof -
  have "count_list (placeholders value) (CHR ''?'') = sum_list (map (\<lambda>_. 1) value)"
    by (simp add: placeholders_def count_join_str comp_def)
  then show ?thesis
    by (simp add: sum_list_triv)
qed

lemma and_entry_params_length:
  "length (snd (and_entry key value)) =
     (if is_tuple value \<and> length (elems value) = 2 then 2
      else if is_list value then length (elems value) else 1)"
  by (simp add: and_entry_def)

lemma or_entry_params_length:
  "length (snd (or_entry key value)) = (if is_list value then length (elems value) else 1)"
  by (simp add: or_entry_def)

lemma and_entry_count:
  "n_placeholders (fst (and_entry key value)) = n_placeholders key + length (snd (and_entry key value))"
  by (simp add: and_entry_def n_placeholders_def count_placeholders)

lemma or_entry_count:
  "n_placeholders (fst (or_entry key value)) = n_placeholders key + length (snd (or_entry key value))"
  by (simp add: or_entry_def n_placeholders_def count_placeholders)

lemma n_placeholders_no_mark: "CHR ''?'' \<notin> set s \<Longrightarrow> n_placeholders s = 0"
  by (simp add: n_placeholders_def)

lemma and_clauses_count:
  "\<forall>(key, value) \<in> set kvs. CHR ''?'' \<notin> set key \<Longrightarrow>
   sum_list (map n_placeholders (and_clauses kvs)) = length (and_params kvs)"
  by (induction kvs)
     (auto simp: and_clauses_def and_params_def and_entry_count n_placeholders_no_mark)

lemma and_text_count:
  assumes "\<forall>(key, value) \<in> set kvs. CHR ''?'' \<notin> set key"
  shows "n_placeholders (and_text kvs) = length (and_params kvs)"
proof (cases "kvs = []")
  case True
  then show ?thesis by (simp add: and_text_def and_params_def n_placeholders_def)
next
  case False
  have "count_list (join_str '' AND '' (and_clauses kvs)) (CHR ''?'')
          = sum_list (map n_placeholders (and_clauses kvs))"
    by (simp add: count_join_str n_placeholders_def [abs_def])
  with False and_clauses_count [OF assms] show ?thesis
    by (simp add: and_text_def n_placeholders_def)
qed

lemma or_element_count:
  assumes "\<forall>(key, value) \<in> set g. CHR ''?'' \<notin> set key"
  shows "n_placeholders (or_element_clause g) = length (or_element_params g)"
proof -
  have "sum_list (map (\<lambda>(key, value). n_placeholders (fst (or_entry key value))) g)
          = length (or_element_params g)"
    using assms
    by (induction g) (auto simp: or_element_params_def or_entry_count n_placeholders_no_mark)
  moreover have "count_list (join_str '' OR '' (map (\<lambda>(key, value). fst (or_entry key value)) g)) (CHR ''?'')
          = sum_list (map (\<lambda>(key, value). n_placeholders (fst (or_entry key value))) g)"
    by (simp add: count_join_str n_placeholders_def comp_def case_prod_unfold)
  ultimately show ?thesis
    by (simp add: or_element_clause_def n_placeholders_def)
qed

lemma or_elements_count:
  "\<forall>g \<in> set gs. \<forall>(key, value) \<in> set g. CHR ''?'' \<notin> set key \<Longrightarrow>
   sum_list (map n_placeholders (map or_element_clause (filter (\<lambda>g. g \<noteq> []) gs)))
     = length (concat (map or_element_params gs))"
  by (induction gs) (auto simp: or_element_count or_element_params_Nil)

lemma or_text_count:
  assumes "\<forall>g \<in> set gs. \<forall>(key, value) \<in> set g. CHR ''?'' \<notin> set key"
  shows "n_placeholders (or_text gs) = length (concat (map or_element_params gs))"
proof (cases "filter (\<lambda>g. g \<noteq> []) gs = []")
  case True
  with or_elements_count [OF assms] show ?thesis
    by (simp add: or_text_def n_placeholders_def)
next
  case False
  have "count_list (join_str '' OR '' (map or_element_clause (filter (\<lambda>g. g \<noteq> []) gs))) (CHR ''?'')
          = sum_list (map n_placeholders (map or_element_clause (filter (\<lambda>g. g \<noteq> []) gs)))"
    by (simp add: count_join_str n_placeholders_def [abs_def] comp_def)
  with False or_elements_count [OF assms] show ?thesis
    by (simp add: or_text_def n_placeholders_def)
qed


lemma order_clause_str:
  "order_clause upper order_by (PStr d) q = Inr (q @ order_text upper order_by d)"
  by (simp add: order_clause_def order_text_def split: option.splits)

lemma order_clause_None: "order_clause upper None dir q = Inr q"
  by (simp add: order_clause_def)

lemma order_text_count:
  assumes "\<forall>col. order_by = Some col \<longrightarrow> CHR ''?'' \<notin> set col"
  shows "n_placeholders (order_text upper order_by d) = 0"
proof (cases order_by)
  case None
  then show ?thesis by (simp add: order_text_def n_placeholders_def)
next
  case (Some col)
  with assms have "count_list col (CHR ''?'') = 0" by simp
  moreover have "count_list (if upper d \<notin> set [''ASC'', ''DESC''] then ''ASC'' else upper d) (CHR ''?'') = 0"
    by auto
  ultimately show ?thesis
    using Some by (simp add: order_text_def n_placeholders_def del: set_simps)
qed

lemma construct_typed:
  "construct_sql_statement upper base (PDict kvs) (PList (map PDict gs)) order_by (PStr d) =
     Inr (base @ and_text kvs @ or_text gs @ order_text upper order_by d,
          and_params kvs @ concat (map or_element_params gs))"
  by (simp add: construct_dicts order_clause_str)

subsection \<open>Directions in ASCII\<close>

text \<open>
  On ASCII strings the test of the compiler, \<^verbatim>\<open>order_direction.upper() not in ["ASC", "DESC"]\<close>,
  is a test of the letters: the upper-case form is \<^verbatim>\<open>ASC\<close> (\<^verbatim>\<open>DESC\<close>) exactly for the
  strings that are \<^verbatim>\<open>asc\<close> (\<^verbatim>\<open>desc\<close>) in some letter case.
\<close>

lemma ascii_upper_char_letters:
  "ascii_upper_char (CHR ''a'') = CHR ''A''" "ascii_upper_char (CHR ''s'') = CHR ''S''"
  "ascii_upper_char (CHR ''c'') = CHR ''C''" "ascii_upper_char (CHR ''d'') = CHR ''D''"
  "ascii_upper_char (CHR ''e'') = CHR ''E''"
  by (simp_all add: ascii_upper_char_def)

lemma ascii_upper_char_A: "ascii_upper_char c = CHR ''A'' \<longleftrightarrow> c = CHR ''a'' \<or> c = CHR ''A''"
  by (simp add: ascii_upper_char_def)

lemma ascii_upper_char_S: "ascii_upper_char c = CHR ''S'' \<longleftrightarrow> c = CHR ''s'' \<or> c = CHR ''S''"
  by (simp add: ascii_upper_char_def)

lemma ascii_upper_char_C: "ascii_upper_char c = CHR ''C'' \<longleftrightarrow> c = CHR ''c'' \<or> c = CHR ''C''"
  by (simp add: ascii_upper_char_def)

lemma ascii_upper_char_D: "ascii_upper_char c = CHR ''D'' \<longleftrightarrow> c = CHR ''d'' \<or> c = CHR ''D''"
  by (simp add: ascii_upper_char_def)

lemma ascii_upper_char_E: "ascii_upper_char c = CHR ''E'' \<longleftrightarrow> c = CHR ''e'' \<or> c = CHR ''E''"
  by (simp add: ascii_upper_char_def)

lemma ascii_upper_ASC: "ascii_upper d = ''ASC'' \<longleftrightarrow> same_letters d ''asc''"
  by (auto simp: ascii_upper_def same_letters_def list_all2_Cons2 ascii_upper_char_letters
        ascii_upper_char_A ascii_upper_char_S ascii_upper_char_C)

lemma ascii_upper_DESC: "ascii_upper d = ''DESC'' \<longleftrightarrow> same_letters d ''desc''"
  by (auto simp: ascii_upper_def same_letters_def list_all2_Cons2 ascii_upper_char_letters
        ascii_upper_char_D ascii_upper_char_E ascii_upper_char_S ascii_upper_char_C)

lemma order_text_given:
  assumes "col \<noteq> []"
  shows "order_text upper (Some col) d =
           '' ORDER BY '' @ col @ '' '' @
           (if upper d = ''ASC'' \<or> upper d = ''DESC'' then upper d else ''ASC'')"
  using assms by (simp add: order_text_def)

text \<open>
  A direction \<open>d\<close> on which \<^verbatim>\<open>str.upper()\<close> is the ASCII mapping (every ASCII string is one)
  gives \<^verbatim>\<open>DESC\<close> when it is \<^verbatim>\<open>desc\<close> in some letter case, and \<^verbatim>\<open>ASC\<close> otherwise.
\<close>

lemma order_text_ascii:
  assumes "col \<noteq> []" and "upper d = ascii_upper d"
  shows "order_text upper (Some col) d =
           '' ORDER BY '' @ col @ (if same_letters d ''desc'' then '' DESC'' else '' ASC'')"
  using assms ascii_upper_ASC [of d] ascii_upper_DESC [of d]
  by (auto simp: order_text_def)

subsection \<open>Single entries, empty elements, well-typed arguments\<close>

lemma and_entry_pair: "and_entry key (PTuple [lo, hi]) = (key @ '' BETWEEN ? AND ?'', [lo, hi])"
  by (simp add: and_entry_def)

lemma and_entry_empty_list: "and_entry key (PList []) = (key @ '' IN ()'', [])"
  by (simp add: and_entry_def placeholders_def)

lemma or_text_all_empty: "or_text (replicate n []) = []"
  by (simp add: or_text_def)

lemma construct_all_empty:
  "construct_sql_statement upper base f (PList (replicate n (PDict []))) order_by dir
     = construct_sql_statement upper base f PNone order_by dir"
proof -
  have "or_loop (replicate n (PDict [])) [] ps = Inr ([], ps)" for ps
    using or_loop_dicts [of "replicate n []" "[]" ps]
    by (simp add: or_element_params_Nil)
  then show ?thesis
    by (simp add: construct_sql_statement_def split: sum.splits prod.splits)
qed

lemma or_params_filter:
  "concat (map or_element_params (filter (\<lambda>g. g \<noteq> []) gs)) = concat (map or_element_params gs)"
  by (induction gs) (simp_all add: or_element_params_Nil)

lemma all_dicts: "list_all is_dict xs \<Longrightarrow> \<exists>gs. xs = map PDict gs"
proof (induction xs)
  case Nil
  then show ?case by simp
next
  case (Cons x xs)
  then obtain gs where "xs = map PDict gs" by auto
  moreover from Cons.prems obtain g where "x = PDict g" by (cases x) auto
  ultimately have "x # xs = map PDict (g # gs)" by simp
  then show ?case by (rule exI)
qed

text \<open>The exceptions of the model are reachable: arguments outside the contract's types raise.\<close>

lemma ill_typed_arguments_raise:
  "construct_sql_statement upper base (PList [PInt 1]) PNone None dir = Inl AttributeError"
  "construct_sql_statement upper base PNone (PList [PInt 1]) None dir = Inl AttributeError"
  "construct_sql_statement upper base PNone (PInt 1) None dir = Inl TypeError"
  "construct_sql_statement upper base PNone PNone (Some ''c'') PNone = Inl AttributeError"
  by (simp_all add: construct_sql_statement_def order_clause_def)

section \<open>The claims\<close>

text \<open>
  C1, as amended. The claim as written counts the \<^verbatim>\<open>?\<close> characters that the compiler
  adds to the query; a column name or an order-by column is copied into the query as it is,
  so a \<^verbatim>\<open>?\<close> in one of them is added too and has no parameter (see
  \<open>placeholder_count_counterexample\<close>). When no filter key and no order-by column contains
  a \<^verbatim>\<open>?\<close>: the compiler returns a query \<open>q\<close> and parameters \<open>ps\<close>, and the number of
  \<^verbatim>\<open>?\<close> in \<open>q\<close> is that of the base query plus the length of \<open>ps\<close>. The query is the base
  query, then the text of the AND filters, then that of the OR group, then a tail (the ORDER
  BY text) without placeholders, and \<open>ps\<close> is the parameters of the AND filters followed by
  those of the OR group in the same order, each part with as many placeholders as parameters.
  Every entry's clause has as many placeholders as the entry adds parameters: 2 for a pair
  (BETWEEN), one per element for a list (IN), and 1 otherwise (LIKE, equality).
\<close>

theorem placeholders_match_params:
  assumes keys: "\<forall>(key, value) \<in> set kvs. CHR ''?'' \<notin> set key"
      and or_keys: "\<forall>g \<in> set gs. \<forall>(key, value) \<in> set g. CHR ''?'' \<notin> set key"
      and col: "\<forall>col. order_by = Some col \<longrightarrow> CHR ''?'' \<notin> set col"
  shows "\<exists>q ps tail.
           construct_sql_statement upper base (PDict kvs) (PList (map PDict gs)) order_by (PStr d) = Inr (q, ps)
         \<and> n_placeholders q = n_placeholders base + length ps
         \<and> q = base @ and_text kvs @ or_text gs @ tail
         \<and> ps = and_params kvs @ concat (map or_element_params gs)
         \<and> n_placeholders (and_text kvs) = length (and_params kvs)
         \<and> n_placeholders (or_text gs) = length (concat (map or_element_params gs))
         \<and> n_placeholders tail = 0
         \<and> (\<forall>(key, value) \<in> set kvs.
               n_placeholders (fst (and_entry key value)) = length (snd (and_entry key value))
             \<and> length (snd (and_entry key value)) =
                 (if is_tuple value \<and> length (elems value) = 2 then 2
                  else if is_list value then length (elems value) else 1))
         \<and> (\<forall>g \<in> set gs. \<forall>(key, value) \<in> set g.
               n_placeholders (fst (or_entry key value)) = length (snd (or_entry key value))
             \<and> length (snd (or_entry key value)) =
                 (if is_list value then length (elems value) else 1))"
proof -
  let ?q = "base @ and_text kvs @ or_text gs @ order_text upper order_by d"
  let ?ps = "and_params kvs @ concat (map or_element_params gs)"
  have a: "n_placeholders (and_text kvs) = length (and_params kvs)"
    by (rule and_text_count [OF keys])
  have b: "n_placeholders (or_text gs) = length (concat (map or_element_params gs))"
    by (rule or_text_count [OF or_keys])
  have c: "n_placeholders (order_text upper order_by d) = 0"
    by (rule order_text_count [OF col])
  have total: "n_placeholders ?q = n_placeholders base + length ?ps"
    using a b c by (simp add: n_placeholders_def)
  have and_entries: "\<forall>(key, value) \<in> set kvs.
      n_placeholders (fst (and_entry key value)) = length (snd (and_entry key value))
    \<and> length (snd (and_entry key value)) =
        (if is_tuple value \<and> length (elems value) = 2 then 2
         else if is_list value then length (elems value) else 1)"
    using keys by (auto simp: and_entry_count n_placeholders_no_mark and_entry_params_length)
  have or_entries: "\<forall>g \<in> set gs. \<forall>(key, value) \<in> set g.
      n_placeholders (fst (or_entry key value)) = length (snd (or_entry key value))
    \<and> length (snd (or_entry key value)) = (if is_list value then length (elems value) else 1)"
    using or_keys by (fastforce simp: or_entry_count n_placeholders_no_mark or_entry_params_length)
  show ?thesis
    using construct_typed [of upper base kvs gs order_by d] total a b c and_entries or_entries
    by blast
qed

text \<open>
  A call with all four kinds of AND entry, an OR group of two elements and an ORDER BY; no
  key has a \<^verbatim>\<open>?\<close>.
\<close>

theorem placeholders_match_params_witness:
  "CHR ''?'' \<notin> set ''age'' \<and> CHR ''?'' \<notin> set ''status'' \<and> CHR ''?'' \<notin> set ''name''
   \<and> CHR ''?'' \<notin> set ''id'' \<and> CHR ''?'' \<notin> set ''type''
   \<and> construct_sql_statement ascii_upper ''SELECT * FROM t WHERE 1=1''
      (PDict [(''age'', PTuple [PInt 18, PInt 65]), (''status'', PList [PStr ''A'', PStr ''B'']),
              (''name'', PStr ''%John%''), (''id'', PInt 7)])
      (PList (map PDict [[(''type'', PStr ''X'')], [(''type'', PList [PStr ''Y'', PStr ''Z''])]]))
      (Some ''name'') (PStr ''desc'')
    = Inr (''SELECT * FROM t WHERE 1=1 AND age BETWEEN ? AND ? AND status IN (?, ?) AND name LIKE ? AND id = ? AND ((type = ?) OR (type IN (?, ?))) ORDER BY name DESC'',
           [PInt 18, PInt 65, PStr ''A'', PStr ''B'', PStr ''%John%'', PInt 7, PStr ''X'', PStr ''Y'', PStr ''Z''])
   \<and> n_placeholders ''SELECT * FROM t WHERE 1=1 AND age BETWEEN ? AND ? AND status IN (?, ?) AND name LIKE ? AND id = ? AND ((type = ?) OR (type IN (?, ?))) ORDER BY name DESC''
       = n_placeholders ''SELECT * FROM t WHERE 1=1'' + 9"
  using placeholders_match_params [where
      kvs = "[(''age'', PTuple [PInt 18, PInt 65]), (''status'', PList [PStr ''A'', PStr ''B'']),
              (''name'', PStr ''%John%''), (''id'', PInt 7)]"
      and gs = "[[(''type'', PStr ''X'')], [(''type'', PList [PStr ''Y'', PStr ''Z''])]]"
      and order_by = "Some ''name''" and base = "''SELECT * FROM t WHERE 1=1''"
      and d = "''desc''" and upper = ascii_upper]
  by (simp add: construct_sql_statement_def and_entry_def or_entry_def order_clause_def
        placeholders_def ascii_upper_def ascii_upper_char_def n_placeholders_def)

text \<open>
  The claim as written fails for \<^verbatim>\<open>filters={"a?": 1}\<close>: the compiler adds two \<^verbatim>\<open>?\<close> to
  the query and returns one parameter.
\<close>

theorem placeholder_count_counterexample:
  "construct_sql_statement ascii_upper ''Q'' (PDict [(''a?'', PInt 1)]) PNone None (PStr ''ASC'')
     = Inr (''Q AND a? = ?'', [PInt 1])
   \<and> n_placeholders ''Q AND a? = ?'' = 2
   \<and> n_placeholders ''Q'' + length [PInt 1] = 1"
  by (simp add: construct_sql_statement_def and_entry_def order_clause_def n_placeholders_def)

text \<open>
  C2, as amended. The claim as written says that the conditions of one element of the OR
  group are AND-ed together; the code joins them with \<^verbatim>\<open>OR\<close> (see
  \<open>or_element_and_counterexample\<close>). For every OR group (a list of dictionaries), with any
  AND filters and any order-by arguments: the conditions of each element that has entries
  are joined with \<^verbatim>\<open>OR\<close> and wrapped in parentheses, these elements are joined with
  \<^verbatim>\<open>OR\<close> and wrapped in one more pair of parentheses, and this group is appended with
  \<^verbatim>\<open>AND\<close> after the base query and the AND filters, before the ORDER BY text. An element
  without entries is skipped, and a group without any entry appends nothing.
\<close>

theorem or_group_structure:
  "construct_sql_statement upper base (PDict kvs) (PList (map PDict gs)) order_by (PStr d) =
     Inr (base @ and_text kvs
            @ (if filter (\<lambda>g. g \<noteq> []) gs = [] then []
               else '' AND (''
                    @ join_str '' OR ''
                        (map (\<lambda>g. ''('' @ join_str '' OR '' (map (\<lambda>(key, value). fst (or_entry key value)) g) @ '')'')
                           (filter (\<lambda>g. g \<noteq> []) gs))
                    @ '')'')
            @ order_text upper order_by d,
          and_params kvs @ concat (map or_element_params gs))"
proof -
  have "or_text gs =
      (if filter (\<lambda>g. g \<noteq> []) gs = [] then []
       else '' AND ('' @ join_str '' OR ''
              (map (\<lambda>g. ''('' @ join_str '' OR '' (map (\<lambda>(key, value). fst (or_entry key value)) g) @ '')'')
                 (filter (\<lambda>g. g \<noteq> []) gs))
            @ '')'')"
    by (simp add: or_text_def or_element_clause_def [abs_def])
  then show ?thesis
    by (simp only: construct_typed)
qed

text \<open>
  An AND filter and an OR group of three elements: the first with two conditions, the
  second empty.
\<close>

theorem or_group_structure_witness:
  "construct_sql_statement ascii_upper ''Q'' (PDict [(''k'', PInt 0)])
        (PList (map PDict [[(''a'', PInt 1), (''b'', PStr ''%x'')], [], [(''c'', PList [PInt 2, PInt 3])]]))
        None (PStr ''ASC'')
      = Inr (''Q AND k = ? AND ((a = ? OR b LIKE ?) OR (c IN (?, ?)))'',
             [PInt 0, PInt 1, PStr ''%x'', PInt 2, PInt 3])"
  using or_group_structure [where
      gs = "[[(''a'', PInt 1), (''b'', PStr ''%x'')], [], [(''c'', PList [PInt 2, PInt 3])]]"
      and base = "''Q''" and kvs = "[(''k'', PInt 0)]" and order_by = None and d = "''ASC''"
      and upper = ascii_upper]
  by (simp add: and_text_def and_clauses_def and_params_def or_element_params_def order_text_def
        and_entry_def or_entry_def placeholders_def)

text \<open>
  The claim as written fails for \<^verbatim>\<open>or_filters=[{"a": 1, "b": 2}]\<close>: the two conditions of
  the element are joined with \<^verbatim>\<open>OR\<close>, not with \<^verbatim>\<open>AND\<close>.
\<close>

theorem or_element_and_counterexample:
  "construct_sql_statement ascii_upper ''Q'' PNone (PList [PDict [(''a'', PInt 1), (''b'', PInt 2)]]) None (PStr ''ASC'')
     = Inr (''Q AND ((a = ? OR b = ?))'', [PInt 1, PInt 2])
   \<and> ''Q AND ((a = ? OR b = ?))'' \<noteq> ''Q AND ((a = ? AND b = ?))''"
  by (simp add: construct_sql_statement_def or_entry_def order_clause_def)

text \<open>
  C3. For \<^verbatim>\<open>or_filters=[{"type": "X"}, {"type": ["Y","Z"]}]\<close> and no AND filters (and no
  order-by column), the compiled query is the base query followed by
  \<^verbatim>\<open> AND ((type = ?) OR (type IN (?, ?)))\<close> and the parameters are \<^verbatim>\<open>["X","Y","Z"]\<close>. In
  general, for a list of dictionaries: the sub-predicates of each non-empty element are
  joined with \<^verbatim>\<open>OR\<close> and wrapped in parentheses, the elements are joined with \<^verbatim>\<open>OR\<close>, and the
  group gets one more pair of parentheses and is appended to the base query with \<^verbatim>\<open>AND\<close>;
  the parameters are those of the elements in order. The sub-predicate of an entry is IN
  for a list, LIKE for a string with a \<^verbatim>\<open>%\<close>, and equality otherwise (also for a pair).
\<close>

theorem or_filters_scenario:
  "construct_sql_statement upper base PNone
      (PList [PDict [(''type'', PStr ''X'')], PDict [(''type'', PList [PStr ''Y'', PStr ''Z''])]])
      None dir
     = Inr (base @ '' AND ((type = ?) OR (type IN (?, ?)))'', [PStr ''X'', PStr ''Y'', PStr ''Z''])
   \<and> construct_sql_statement upper base PNone (PList (map PDict gs)) None dir
     = Inr (base @
            (if filter (\<lambda>g. g \<noteq> []) gs = [] then []
             else '' AND ('' @
                  join_str '' OR ''
                    (map (\<lambda>g. ''('' @ join_str '' OR '' (map (\<lambda>(key, value). fst (or_entry key value)) g) @ '')'')
                       (filter (\<lambda>g. g \<noteq> []) gs))
                  @ '')''),
            concat (map (\<lambda>g. concat (map (\<lambda>(key, value). snd (or_entry key value)) g)) gs))
   \<and> or_entry key (PList xs) = (key @ '' IN ('' @ join_str '', '' (map (\<lambda>_. ''?'') xs) @ '')'', xs)
   \<and> or_entry key (PStr ''%John%'') = (key @ '' LIKE ?'', [PStr ''%John%''])
   \<and> or_entry key (PStr ''X'') = (key @ '' = ?'', [PStr ''X''])
   \<and> or_entry key (PInt n) = (key @ '' = ?'', [PInt n])
   \<and> or_entry key (PTuple [lo, hi]) = (key @ '' = ?'', [PTuple [lo, hi]])"
proof -
  have scenario: "construct_sql_statement upper base PNone
      (PList [PDict [(''type'', PStr ''X'')], PDict [(''type'', PList [PStr ''Y'', PStr ''Z''])]])
      None dir
     = Inr (base @ '' AND ((type = ?) OR (type IN (?, ?)))'', [PStr ''X'', PStr ''Y'', PStr ''Z''])"
    by (simp add: construct_sql_statement_def or_entry_def order_clause_def placeholders_def)
  have general: "construct_sql_statement upper base PNone (PList (map PDict gs)) None dir
     = Inr (base @
            (if filter (\<lambda>g. g \<noteq> []) gs = [] then []
             else '' AND ('' @
                  join_str '' OR ''
                    (map (\<lambda>g. ''('' @ join_str '' OR '' (map (\<lambda>(key, value). fst (or_entry key value)) g) @ '')'')
                       (filter (\<lambda>g. g \<noteq> []) gs))
                  @ '')''),
            concat (map (\<lambda>g. concat (map (\<lambda>(key, value). snd (or_entry key value)) g)) gs))"
    by (simp add: construct_None_filters construct_dicts order_clause_None and_text_def
          and_params_def or_text_def or_element_clause_def [abs_def] or_element_params_def [abs_def])
  have entries:
    "or_entry key (PList xs) = (key @ '' IN ('' @ join_str '', '' (map (\<lambda>_. ''?'') xs) @ '')'', xs)"
    "or_entry key (PStr ''%John%'') = (key @ '' LIKE ?'', [PStr ''%John%''])"
    "or_entry key (PStr ''X'') = (key @ '' = ?'', [PStr ''X''])"
    "or_entry key (PInt n) = (key @ '' = ?'', [PInt n])"
    "or_entry key (PTuple [lo, hi]) = (key @ '' = ?'', [PTuple [lo, hi]])"
    by (simp_all add: or_entry_def placeholders_def)
  from scenario general entries show ?thesis
    by (intro conjI)
qed

text \<open>
  C4. An AND-filter entry whose value is a pair \<open>(lo, hi)\<close> gives the clause
  \<^verbatim>\<open><key> BETWEEN ? AND ?\<close> and the parameters \<open>lo\<close>, \<open>hi\<close> in this order, at the place of the
  entry among the other entries' clauses and parameters, whatever \<open>lo\<close> and \<open>hi\<close> are (no
  check that \<open>lo \<le> hi\<close>). In particular \<^verbatim>\<open>filters={"age": (18, 65)}\<close> gives a query with
  \<^verbatim>\<open>age BETWEEN ? AND ?\<close> and the parameters \<^verbatim>\<open>[18, 65]\<close>, and \<^verbatim>\<open>(65, 18)\<close> gives the same clause
  with \<^verbatim>\<open>[65, 18]\<close>.
\<close>

theorem between_entry:
  "and_entry key (PTuple [lo, hi]) = (key @ '' BETWEEN ? AND ?'', [lo, hi])
   \<and> construct_sql_statement upper base (PDict (pre @ (key, PTuple [lo, hi]) # post))
        (PList (map PDict gs)) order_by (PStr d)
     = Inr (base @ '' AND ''
              @ join_str '' AND '' (and_clauses pre @ [key @ '' BETWEEN ? AND ?''] @ and_clauses post)
              @ or_text gs @ order_text upper order_by d,
            and_params pre @ [lo, hi] @ and_params post @ concat (map or_element_params gs))
   \<and> construct_sql_statement upper base (PDict [(''age'', PTuple [PInt 18, PInt 65])]) PNone None dir
     = Inr (base @ '' AND age BETWEEN ? AND ?'', [PInt 18, PInt 65])
   \<and> construct_sql_statement upper base (PDict [(''age'', PTuple [PInt 65, PInt 18])]) PNone None dir
     = Inr (base @ '' AND age BETWEEN ? AND ?'', [PInt 65, PInt 18])"
proof -
  have ctx: "construct_sql_statement upper base (PDict (pre @ (key, PTuple [lo, hi]) # post))
        (PList (map PDict gs)) order_by (PStr d)
     = Inr (base @ '' AND ''
              @ join_str '' AND '' (and_clauses pre @ [key @ '' BETWEEN ? AND ?''] @ and_clauses post)
              @ or_text gs @ order_text upper order_by d,
            and_params pre @ [lo, hi] @ and_params post @ concat (map or_element_params gs))"
    by (simp add: construct_typed and_text_def and_clauses_def and_params_def and_entry_pair)
  have ex1: "construct_sql_statement upper base (PDict [(''age'', PTuple [PInt 18, PInt 65])]) PNone None dir
     = Inr (base @ '' AND age BETWEEN ? AND ?'', [PInt 18, PInt 65])"
    by (simp add: construct_sql_statement_def and_entry_def order_clause_def)
  have ex2: "construct_sql_statement upper base (PDict [(''age'', PTuple [PInt 65, PInt 18])]) PNone None dir
     = Inr (base @ '' AND age BETWEEN ? AND ?'', [PInt 65, PInt 18])"
    by (simp add: construct_sql_statement_def and_entry_def order_clause_def)
  from and_entry_pair ctx ex1 ex2 show ?thesis
    by (intro conjI)
qed

text \<open>
  C5. With a non-empty order-by column \<open>col\<close>, for every direction string \<open>d\<close>: a string is
  \<^verbatim>\<open>asc\<close> or \<^verbatim>\<open>desc\<close> in some letter case when its upper-case form \<^verbatim>\<open>d.upper()\<close> is
  \<^verbatim>\<open>ASC\<close> or \<^verbatim>\<open>DESC\<close>. If the upper-case form of \<open>d\<close> is neither, the compiled query ends
  with \<^verbatim>\<open> ORDER BY <col> ASC\<close>; if it is one of them, the query ends with
  \<^verbatim>\<open> ORDER BY <col> \<close> and that upper-case form, \<^verbatim>\<open>ASC\<close> or \<^verbatim>\<open>DESC\<close>. The rest of the query
  and the parameters are those of the filters. (For the directions on which
  \<^verbatim>\<open>str.upper()\<close> is the ASCII mapping, \<open>order_text_ascii\<close> states the test on the letters
  of \<open>d\<close>.)
\<close>

theorem order_direction_normalised:
  assumes "col \<noteq> []"
  shows "(upper d \<noteq> ''ASC'' \<and> upper d \<noteq> ''DESC'' \<longrightarrow>
            construct_sql_statement upper base (PDict kvs) (PList (map PDict gs)) (Some col) (PStr d)
              = Inr (base @ and_text kvs @ or_text gs @ '' ORDER BY '' @ col @ '' ASC'',
                     and_params kvs @ concat (map or_element_params gs)))
       \<and> (upper d = ''ASC'' \<longrightarrow>
            construct_sql_statement upper base (PDict kvs) (PList (map PDict gs)) (Some col) (PStr d)
              = Inr (base @ and_text kvs @ or_text gs @ '' ORDER BY '' @ col @ '' ASC'',
                     and_params kvs @ concat (map or_element_params gs)))
       \<and> (upper d = ''DESC'' \<longrightarrow>
            construct_sql_statement upper base (PDict kvs) (PList (map PDict gs)) (Some col) (PStr d)
              = Inr (base @ and_text kvs @ or_text gs @ '' ORDER BY '' @ col @ '' DESC'',
                     and_params kvs @ concat (map or_element_params gs)))"
proof -
  have tail: "order_text upper (Some col) d =
      '' ORDER BY '' @ col @ '' '' @
      (if upper d = ''ASC'' \<or> upper d = ''DESC'' then upper d else ''ASC'')"
    by (rule order_text_given [OF assms])
  show ?thesis
    by (simp add: construct_typed tail)
qed

text \<open>One direction outside the two words, and one letter-case variant of each word.\<close>

theorem order_direction_normalised_witness:
  "''created'' \<noteq> []
   \<and> ascii_upper ''sideways'' \<noteq> ''ASC'' \<and> ascii_upper ''sideways'' \<noteq> ''DESC''
   \<and> ascii_upper ''Asc'' = ''ASC'' \<and> ascii_upper ''deSC'' = ''DESC''
   \<and> construct_sql_statement ascii_upper ''Q'' (PDict [(''k'', PInt 0)]) (PList (map PDict [])) (Some ''created'') (PStr ''sideways'')
       = Inr (''Q AND k = ? ORDER BY created ASC'', [PInt 0])
   \<and> construct_sql_statement ascii_upper ''Q'' (PDict [(''k'', PInt 0)]) (PList (map PDict [])) (Some ''created'') (PStr ''Asc'')
       = Inr (''Q AND k = ? ORDER BY created ASC'', [PInt 0])
   \<and> construct_sql_statement ascii_upper ''Q'' (PDict [(''k'', PInt 0)]) (PList (map PDict [])) (Some ''created'') (PStr ''deSC'')
       = Inr (''Q AND k = ? ORDER BY created DESC'', [PInt 0])"
  using order_direction_normalised [where col = "''created''" and d = "''sideways''" and base = "''Q''"
          and kvs = "[(''k'', PInt 0)]" and gs = "[]" and upper = ascii_upper]
        order_direction_normalised [where col = "''created''" and d = "''Asc''" and base = "''Q''"
          and kvs = "[(''k'', PInt 0)]" and gs = "[]" and upper = ascii_upper]
        order_direction_normalised [where col = "''created''" and d = "''deSC''" and base = "''Q''"
          and kvs = "[(''k'', PInt 0)]" and gs = "[]" and upper = ascii_upper]
  by (simp add: ascii_upper_def ascii_upper_char_def and_text_def and_clauses_def
        and_params_def and_entry_def or_text_def)

text \<open>
  C6. When \<^verbatim>\<open>filters\<close> is \<^verbatim>\<open>None\<close> or the empty dictionary, \<^verbatim>\<open>or_filters\<close> is \<^verbatim>\<open>None\<close>, the
  empty list or a list of empty dictionaries, and \<^verbatim>\<open>order_by\<close> is \<^verbatim>\<open>None\<close>, the compiler
  returns the base query unchanged and an empty parameter list.
\<close>

theorem no_filters_unchanged:
  assumes "filters = PNone \<or> filters = PDict []"
      and "or_filters = PNone \<or> or_filters = PList [] \<or> or_filters = PList (replicate n (PDict []))"
  shows "construct_sql_statement upper base filters or_filters None dir = Inr (base, [])"
proof -
  have "construct_sql_statement upper base filters or_filters None dir
          = construct_sql_statement upper base PNone PNone None dir"
    using assms
    by (auto simp: construct_all_empty construct_None_filters [symmetric]
          construct_None_or_filters [symmetric])
  also have "\<dots> = Inr (base, [])"
    by (simp add: construct_sql_statement_def order_clause_def)
  finally show ?thesis .
qed

text \<open>Both arguments absent, and both present but empty.\<close>

theorem no_filters_unchanged_witness:
  "construct_sql_statement ascii_upper ''SELECT * FROM t WHERE 1=1'' PNone PNone None (PStr ''ASC'')
     = Inr (''SELECT * FROM t WHERE 1=1'', [])
   \<and> construct_sql_statement ascii_upper ''SELECT * FROM t WHERE 1=1'' (PDict []) (PList (replicate 2 (PDict []))) None (PStr ''ASC'')
     = Inr (''SELECT * FROM t WHERE 1=1'', [])"
  using no_filters_unchanged [where filters = PNone and or_filters = PNone and n = 0
          and base = "''SELECT * FROM t WHERE 1=1''" and dir = "PStr ''ASC''" and upper = ascii_upper]
        no_filters_unchanged [where filters = "PDict []" and or_filters = "PList (replicate 2 (PDict []))"
          and n = 2 and base = "''SELECT * FROM t WHERE 1=1''" and dir = "PStr ''ASC''"
          and upper = ascii_upper]
  by simp

text \<open>
  C7. For every dictionary of AND filters and every list of OR-filter dictionaries, the
  returned parameter list is the parameters of the AND entries in the iteration order of
  the dictionary, followed by the parameters of the OR group's elements in list order, each
  element's parameters in the iteration order of that element. The parameters of an entry
  are the elements of its value for a pair or a list (in an OR element: for a list), and the
  value itself otherwise.
\<close>

theorem params_order:
  "(\<exists>q. construct_sql_statement upper base (PDict kvs) (PList (map PDict gs)) order_by (PStr d)
          = Inr (q, concat (map (\<lambda>(key, value). snd (and_entry key value)) kvs)
                    @ concat (map (\<lambda>g. concat (map (\<lambda>(key, value). snd (or_entry key value)) g)) gs)))
   \<and> snd (and_entry key value) =
       (if is_tuple value \<and> length (elems value) = 2 \<or> is_list value then elems value else [value])
   \<and> snd (or_entry key value) = (if is_list value then elems value else [value])"
proof -
  have "construct_sql_statement upper base (PDict kvs) (PList (map PDict gs)) order_by (PStr d)
          = Inr (base @ and_text kvs @ or_text gs @ order_text upper order_by d,
                 concat (map (\<lambda>(key, value). snd (and_entry key value)) kvs)
                 @ concat (map (\<lambda>g. concat (map (\<lambda>(key, value). snd (or_entry key value)) g)) gs))"
    by (simp add: construct_typed and_params_def or_element_params_def [abs_def])
  then have ex: "\<exists>q. construct_sql_statement upper base (PDict kvs) (PList (map PDict gs)) order_by (PStr d)
          = Inr (q, concat (map (\<lambda>(key, value). snd (and_entry key value)) kvs)
                    @ concat (map (\<lambda>g. concat (map (\<lambda>(key, value). snd (or_entry key value)) g)) gs))"
    by blast
  have a: "snd (and_entry key value) =
       (if is_tuple value \<and> length (elems value) = 2 \<or> is_list value then elems value else [value])"
    by (simp add: and_entry_def)
  have b: "snd (or_entry key value) = (if is_list value then elems value else [value])"
    by (simp add: or_entry_def)
  from ex a b show ?thesis
    by (intro conjI)
qed

text \<open>
  C8. An AND-filter entry whose value is the empty list gives the clause \<^verbatim>\<open><key> IN ()\<close>,
  at the place of the entry among the other entries' clauses, and adds no parameter; the
  compiler returns this query without an error.
\<close>

theorem empty_in_list:
  "and_entry key (PList []) = (key @ '' IN ()'', [])
   \<and> construct_sql_statement upper base (PDict (pre @ (key, PList []) # post))
        (PList (map PDict gs)) order_by (PStr d)
     = Inr (base @ '' AND ''
              @ join_str '' AND '' (and_clauses pre @ [key @ '' IN ()''] @ and_clauses post)
              @ or_text gs @ order_text upper order_by d,
            and_params pre @ and_params post @ concat (map or_element_params gs))
   \<and> construct_sql_statement upper base (PDict [(key, PList [])]) PNone None dir
     = Inr (base @ '' AND '' @ key @ '' IN ()'', [])"
proof -
  have ctx: "construct_sql_statement upper base (PDict (pre @ (key, PList []) # post))
        (PList (map PDict gs)) order_by (PStr d)
     = Inr (base @ '' AND ''
              @ join_str '' AND '' (and_clauses pre @ [key @ '' IN ()''] @ and_clauses post)
              @ or_text gs @ order_text upper order_by d,
            and_params pre @ and_params post @ concat (map or_element_params gs))"
    by (simp add: construct_typed and_text_def and_clauses_def and_params_def and_entry_empty_list)
  have single: "construct_sql_statement upper base (PDict [(key, PList [])]) PNone None dir
     = Inr (base @ '' AND '' @ key @ '' IN ()'', [])"
    by (simp add: construct_sql_statement_def and_entry_empty_list order_clause_def)
  from and_entry_empty_list ctx single show ?thesis
    by (intro conjI)
qed

text \<open>
  C9. For arguments of the contract's types (\<^verbatim>\<open>filters\<close> is \<^verbatim>\<open>None\<close> or a dictionary,
  \<^verbatim>\<open>or_filters\<close> is \<^verbatim>\<open>None\<close> or a sequence of dictionaries, \<^verbatim>\<open>order_direction\<close> is a string),
  whatever the column names and the values are, the compiler raises no exception: it
  returns a query and a parameter list.
\<close>

theorem compile_total:
  assumes "is_filter_map filters" and "is_or_filter_group or_filters" and "is_str order_direction"
  shows "\<exists>q ps. construct_sql_statement upper base filters or_filters order_by order_direction = Inr (q, ps)"
proof -
  from assms(3) obtain d where d: "order_direction = PStr d"
    by (cases order_direction) auto
  from assms(1) obtain kvs where
    f: "construct_sql_statement upper base filters or_filters order_by order_direction
          = construct_sql_statement upper base (PDict kvs) or_filters order_by order_direction"
    by (cases filters) (auto simp: construct_None_filters)
  from assms(2) obtain gs where
    g: "construct_sql_statement upper base (PDict kvs) or_filters order_by order_direction
          = construct_sql_statement upper base (PDict kvs) (PList (map PDict gs)) order_by order_direction"
  proof (cases or_filters)
    case PNone
    then have "construct_sql_statement upper base (PDict kvs) or_filters order_by order_direction
          = construct_sql_statement upper base (PDict kvs) (PList (map PDict [])) order_by order_direction"
      by (simp add: construct_None_or_filters)
    then show ?thesis by (rule that)
  next
    case (PList xs)
    with assms(2) obtain gs where "xs = map PDict gs"
      using all_dicts by auto
    with PList show ?thesis by (auto intro: that)
  next
    case (PTuple xs)
    with assms(2) obtain gs where "xs = map PDict gs"
      using all_dicts by auto
    with PTuple show ?thesis by (auto intro: that simp: construct_tuple_or_filters)
  qed (use assms(2) in auto)
  from f g d have "construct_sql_statement upper base filters or_filters order_by order_direction
      = construct_sql_statement upper base (PDict kvs) (PList (map PDict gs)) order_by (PStr d)"
    by simp
  then show ?thesis
    by (simp add: construct_typed)
qed

text \<open>
  A malformed column name with an empty IN list, a column name with a space, an injected
  condition as a key in the OR group, an empty OR element and an unknown direction: they
  all pass through into the query.
\<close>

theorem compile_total_witness:
  "is_filter_map (PDict [(''no such column; --'', PList []), (''a b'', PStr ''%'')])
   \<and> is_or_filter_group (PList [PDict [(''1=1 OR x'', PTuple [PInt 1, PInt 2])], PDict []])
   \<and> is_str (PStr ''sideways'')
   \<and> construct_sql_statement ascii_upper ''Q''
        (PDict [(''no such column; --'', PList []), (''a b'', PStr ''%'')])
        (PList [PDict [(''1=1 OR x'', PTuple [PInt 1, PInt 2])], PDict []])
        (Some ''nowhere'') (PStr ''sideways'')
      = Inr (''Q AND no such column; -- IN () AND a b LIKE ? AND ((1=1 OR x = ?)) ORDER BY nowhere ASC'',
             [PStr ''%'', PTuple [PInt 1, PInt 2]])"
  using compile_total [where
      filters = "PDict [(''no such column; --'', PList []), (''a b'', PStr ''%'')]"
      and or_filters = "PList [PDict [(''1=1 OR x'', PTuple [PInt 1, PInt 2])], PDict []]"
      and order_direction = "PStr ''sideways''" and base = "''Q''" and order_by = "Some ''nowhere''"
      and upper = ascii_upper]
  by (simp add: construct_sql_statement_def and_entry_def or_entry_def order_clause_def
        placeholders_def ascii_upper_def ascii_upper_char_def)

text \<open>
  C10. In a list of OR-filter dictionaries, an empty dictionary is skipped: the loop adds
  no clause and no parameter for it, and the compiler's result is that for the list without
  the empty dictionaries. When every element is empty, the result is that for
  \<^verbatim>\<open>or_filters=None\<close>: nothing is appended for the OR group (no \<^verbatim>\<open>AND ()\<close>), and the query
  is the base query with the AND filters and the ORDER BY text.
\<close>

theorem empty_or_elements_skipped:
  "or_loop (map PDict gs) or_clauses params
     = Inr (or_clauses @ map or_element_clause (filter (\<lambda>g. g \<noteq> []) gs),
            params @ concat (map or_element_params (filter (\<lambda>g. g \<noteq> []) gs)))
   \<and> construct_sql_statement upper base f (PList (map PDict gs)) order_by dir
     = construct_sql_statement upper base f (PList (map PDict (filter (\<lambda>g. g \<noteq> []) gs))) order_by dir
   \<and> construct_sql_statement upper base f (PList (replicate n (PDict []))) order_by dir
     = construct_sql_statement upper base f PNone order_by dir
   \<and> construct_sql_statement upper base (PDict kvs) (PList (replicate n (PDict []))) order_by (PStr d)
     = Inr (base @ and_text kvs @ order_text upper order_by d, and_params kvs)"
proof -
  have loop: "or_loop (map PDict gs) oc ps
     = Inr (oc @ map or_element_clause (filter (\<lambda>g. g \<noteq> []) gs),
            ps @ concat (map or_element_params (filter (\<lambda>g. g \<noteq> []) gs)))" for oc ps
    by (simp add: or_loop_dicts or_params_filter)
  have "or_loop (map PDict (filter (\<lambda>g. g \<noteq> []) gs)) [] ps = or_loop (map PDict gs) [] ps" for ps
    by (simp add: or_loop_dicts or_params_filter)
  then have skip: "construct_sql_statement upper base f (PList (map PDict gs)) order_by dir
     = construct_sql_statement upper base f (PList (map PDict (filter (\<lambda>g. g \<noteq> []) gs))) order_by dir"
    by (simp add: construct_sql_statement_def split: sum.splits prod.splits)
  have "construct_sql_statement upper base (PDict kvs) (PList (map PDict (replicate n []))) order_by (PStr d)
     = Inr (base @ and_text kvs @ order_text upper order_by d, and_params kvs)"
    unfolding construct_typed by (simp add: or_text_all_empty or_element_params_Nil)
  then have none: "construct_sql_statement upper base (PDict kvs) (PList (replicate n (PDict []))) order_by (PStr d)
     = Inr (base @ and_text kvs @ order_text upper order_by d, and_params kvs)"
    by simp
  from loop [of or_clauses params] skip construct_all_empty none show ?thesis
    by (intro conjI)
qed

end
